theory Spec2Isabelle
  imports Complex_Main
begin

unbundle bit_operations_syntax

section \<open>The raytracer module \<^verbatim>\<open>raytrace.hh\<close>\<close>

text \<open>
  Conventions of the embedding.
  \<^item> A C++ \<^verbatim>\<open>double\<close> is a \<^typ>\<open>real\<close>. The arithmetic of the geometry is exact: the
    rounding of IEEE arithmetic is not modelled there. In the conversions between colors
    and bytes, whose properties depend on it, every rounded operation is written
    \<open>fl (\<dots>)\<close> for a rounding function \<open>fl\<close> that the functions take as a parameter.
    Where the source divides by a quantity that can be zero (IEEE gives an infinity or a
    NaN, HOL gives 0) the model writes the case out.
  \<^item> An \<^verbatim>\<open>assert\<close> that fails aborts the program, and so does the dereference of a
    null pointer: every function that can reach one returns \<open>error + 'a\<close>, with
    \<open>Inl AssertionFailed\<close> or \<open>Inl NullDereference\<close> for the abort.
  \<^item> An \<^verbatim>\<open>int\<close> is an \<^typ>\<open>int\<close>; image dimensions are far from the 32-bit range.
  \<^item> Objects behind \<^verbatim>\<open>shared_ptr\<close> are immutable after construction and are passed
    by value; a pointer that can be null is an \<open>option\<close>, with \<open>None\<close> for null.
\<close>

datatype error = AssertionFailed | NullDereference

definition deref :: "'a option \<Rightarrow> error + 'a" where
  "deref p = (case p of None \<Rightarrow> Inl NullDereference | Some x \<Rightarrow> Inr x)"

subsection \<open>Vectors (\<^verbatim>\<open>gmath.hh\<close>)\<close>

record Vector4 =
  vx :: real
  vy :: real
  vz :: real
  vw :: real

record Color =
  red :: real
  green :: real
  blue :: real

text \<open>
  Modelled from the spec: the header \<^verbatim>\<open>gmath.hh\<close> with the class \<^verbatim>\<open>gmath::Vector\<close> is not
  part of the sources. The spec assumes of it "dot product, subtraction, scalar scale,
  magnitude, and homogeneous-coordinate tagging", where "a point has fourth component
  fixed at 1, a direction/translation vector has fourth component fixed at 0". The
  operations of the generic 4-vector act on all four components.
\<close>

definition vector4 :: "real \<Rightarrow> real \<Rightarrow> real \<Rightarrow> real \<Rightarrow> Vector4" where
  "vector4 x y z w = \<lparr>vx = x, vy = y, vz = z, vw = w\<rparr>"

definition vector4_point :: "real \<Rightarrow> real \<Rightarrow> real \<Rightarrow> Vector4" where
  "vector4_point x y z = vector4 x y z 1"

definition vector4_translation :: "real \<Rightarrow> real \<Rightarrow> real \<Rightarrow> Vector4" where
  "vector4_translation x y z = vector4 x y z 0"

definition vadd :: "Vector4 \<Rightarrow> Vector4 \<Rightarrow> Vector4" where
  "vadd p q = \<lparr>vx = vx p + vx q, vy = vy p + vy q, vz = vz p + vz q, vw = vw p + vw q\<rparr>"

definition vsub :: "Vector4 \<Rightarrow> Vector4 \<Rightarrow> Vector4" where
  "vsub p q = \<lparr>vx = vx p - vx q, vy = vy p - vy q, vz = vz p - vz q, vw = vw p - vw q\<rparr>"

definition vscale :: "Vector4 \<Rightarrow> real \<Rightarrow> Vector4" where
  "vscale p k = \<lparr>vx = vx p * k, vy = vy p * k, vz = vz p * k, vw = vw p * k\<rparr>"

definition vdiv :: "Vector4 \<Rightarrow> real \<Rightarrow> Vector4" where
  "vdiv p k = \<lparr>vx = vx p / k, vy = vy p / k, vz = vz p / k, vw = vw p / k\<rparr>"

definition vneg :: "Vector4 \<Rightarrow> Vector4" where
  "vneg p = \<lparr>vx = - vx p, vy = - vy p, vz = - vz p, vw = - vw p\<rparr>"

definition vdot :: "Vector4 \<Rightarrow> Vector4 \<Rightarrow> real" where
  "vdot p q = vx p * vx q + vy p * vy q + vz p * vz q + vw p * vw q"

definition magnitude :: "Vector4 \<Rightarrow> real" where
  "magnitude p = sqrt (vdot p p)"

definition is_homogeneous_point :: "Vector4 \<Rightarrow> bool" where
  "is_homogeneous_point p \<longleftrightarrow> vw p = 1"

definition is_homogeneous_translation :: "Vector4 \<Rightarrow> bool" where
  "is_homogeneous_translation p \<longleftrightarrow> vw p = 0"

definition cscale :: "Color \<Rightarrow> real \<Rightarrow> Color" where
  "cscale c k = \<lparr>red = red c * k, green = green c * k, blue = blue c * k\<rparr>"

definition cmul :: "Color \<Rightarrow> Color \<Rightarrow> Color" where
  "cmul c e = \<lparr>red = red c * red e, green = green c * green e, blue = blue c * blue e\<rparr>"

definition cadd :: "Color \<Rightarrow> Color \<Rightarrow> Color" where
  "cadd c e = \<lparr>red = red c + red e, green = green c + green e, blue = blue c + blue e\<rparr>"

subsection \<open>Colors\<close>

definition is_color_intensity :: "real \<Rightarrow> bool" where
  "is_color_intensity x \<longleftrightarrow> x \<ge> 0 \<and> x \<le> 1"

definition is_color :: "Color \<Rightarrow> bool" where
  "is_color c \<longleftrightarrow>
     is_color_intensity (red c) \<and> is_color_intensity (green c) \<and> is_color_intensity (blue c)"

text \<open>
  The rounding of a \<^verbatim>\<open>double\<close> operation, as far as the color conversions need it: 0 and
  1 are doubles, and on magnitudes between \<open>1 / 512\<close> and \<open>512\<close> the result is within the
  relative error \<open>1 / 2 ^ 53\<close> of the exact value. IEEE-754 round-to-nearest has these
  properties; so has exact arithmetic (\<open>fl x = x\<close>).
\<close>

definition double_rounding :: "(real \<Rightarrow> real) \<Rightarrow> bool" where
  "double_rounding fl \<longleftrightarrow>
     fl 0 = 0 \<and> fl 1 = 1
     \<and> (\<forall>x. 1 / 2 ^ 9 \<le> \<bar>x\<bar> \<and> \<bar>x\<bar> \<le> 2 ^ 9 \<longrightarrow> \<bar>fl x - x\<bar> \<le> \<bar>x\<bar> / 2 ^ 53)"

text \<open>
  \<^verbatim>\<open>web_color(uint_fast32_t hex)\<close>: the argument is an unsigned machine integer; the first
  assertion keeps it below \<open>2^24\<close>, so its width plays no role and it is a \<^typ>\<open>nat\<close>. The
  conversion of a byte to \<^verbatim>\<open>double\<close> is exact, the division is rounded.
\<close>

definition web_color :: "(real \<Rightarrow> real) \<Rightarrow> nat \<Rightarrow> error + Color" where
  "web_color fl hex =
     (if \<not> hex \<le> 0xFFFFFF then Inl AssertionFailed
      else
        let color = \<lparr>red = fl (real (drop_bit 16 hex) / 255),
                     green = fl (real (drop_bit 8 hex AND 0xFF) / 255),
                     blue = fl (real (hex AND 0xFF) / 255)\<rparr>
        in if \<not> is_color color then Inl AssertionFailed else Inr color)"

text \<open>
  \<^verbatim>\<open>std::round\<close> rounds to the nearest integer, halfway cases away from zero.
\<close>

definition cround :: "real \<Rightarrow> int" where
  "cround x = (if x \<ge> 0 then \<lfloor>x + 1 / 2\<rfloor> else - \<lfloor>- x + 1 / 2\<rfloor>)"

definition discretize :: "(real \<Rightarrow> real) \<Rightarrow> real \<Rightarrow> error + int" where
  "discretize fl intensity =
     (if \<not> is_color_intensity intensity then Inl AssertionFailed
      else
        let x = cround (fl (intensity * 255))
        in Inr (if x < 0 then 0 else if x > 255 then 255 else x))"

subsection \<open>Intersections and scene objects\<close>

text \<open>
  The fields of \<^verbatim>\<open>Intersection\<close> and \<^verbatim>\<open>Camera\<close> carry a prefix, since the source's
  one-letter accessors (\<^verbatim>\<open>t\<close>, \<^verbatim>\<open>l\<close>, \<^verbatim>\<open>r\<close>, \<^verbatim>\<open>b\<close>, \<^verbatim>\<open>d\<close>) are variable names here.
\<close>

record Intersection =
  i_point :: Vector4
  i_normal :: Vector4
  i_t :: real

text \<open>The constructor \<^verbatim>\<open>Intersection::Intersection\<close> with its three assertions.\<close>

definition new_Intersection :: "Vector4 \<Rightarrow> Vector4 \<Rightarrow> real \<Rightarrow> error + Intersection" where
  "new_Intersection point normal t =
     (if \<not> is_homogeneous_point point then Inl AssertionFailed
      else if \<not> is_homogeneous_translation normal then Inl AssertionFailed
      else if \<not> t \<ge> 0 then Inl AssertionFailed
      else Inr \<lparr>i_point = point, i_normal = normal, i_t = t\<rparr>)"

text \<open>
  \<^verbatim>\<open>SceneObject\<close> is abstract and \<^verbatim>\<open>SceneSphere\<close> is its only subclass: a datatype with
  one constructor, holding the fields of both classes.
\<close>

datatype SceneObject =
  SceneSphere (diffuse_color: Color) (specular_color: Color) (center: Vector4) (radius: real)

definition new_SceneSphere :: "Color \<Rightarrow> Color \<Rightarrow> Vector4 \<Rightarrow> real \<Rightarrow> error + SceneObject" where
  "new_SceneSphere dc sc c r =
     (if \<not> is_color dc then Inl AssertionFailed
      else if \<not> is_color sc then Inl AssertionFailed
      else if \<not> is_homogeneous_point c then Inl AssertionFailed
      else if \<not> r > 0 then Inl AssertionFailed
      else Inr (SceneSphere dc sc c r))"

text \<open>
  \<^verbatim>\<open>SceneSphere::intersect\<close>. \<open>Inr None\<close> is the null pointer (no intersection). When
  \<open>a = 0\<close> the source divides by zero: both roots and the hit point are NaN, and the
  assertions of the \<^verbatim>\<open>Intersection\<close> constructor fail on them.
\<close>

definition intersect :: "SceneObject \<Rightarrow> Vector4 \<Rightarrow> Vector4 \<Rightarrow> error + Intersection option" where
  "intersect s ray_origin ray_direction =
     (let a = vdot ray_direction ray_direction;
          b = vdot ray_direction (vsub ray_origin (center s)) * 2;
          c = vdot (vsub ray_origin (center s)) (vsub ray_origin (center s))
                - radius s * radius s;
          discriminant = b * b - 4 * a * c
      in if discriminant < 0 then Inr None
         else if a = 0 then Inl AssertionFailed
         else
           let t0 = (- b + sqrt discriminant) / (2 * a);
               t1 = (- b - sqrt discriminant) / (2 * a);
               time = (if t0 < t1 then t0 else t1);
               hit_point = vadd ray_origin (vscale ray_direction time);
               hit_normal = vscale (vsub hit_point (center s)) 2
           in case new_Intersection hit_point hit_normal time of
                Inl e \<Rightarrow> Inl e
              | Inr hit \<Rightarrow> Inr (Some hit))"

text \<open>
  The unit normal the specification asks of an intersection: a vector divided by its
  magnitude. It is the comparison term for the normal that \<^const>\<open>intersect\<close> returns.
\<close>

definition normalized :: "Vector4 \<Rightarrow> Vector4" where
  "normalized p = vdiv p (magnitude p)"

subsection \<open>Lights and camera\<close>

record Light =
  color :: Color
  intensity :: real

definition new_Light :: "Color \<Rightarrow> real \<Rightarrow> error + Light" where
  "new_Light c k =
     (if \<not> is_color c then Inl AssertionFailed
      else if \<not> k > 0 then Inl AssertionFailed
      else Inr \<lparr>color = c, intensity = k\<rparr>)"

record PointLight = Light +
  location :: Vector4

definition new_PointLight :: "Color \<Rightarrow> real \<Rightarrow> Vector4 \<Rightarrow> error + PointLight" where
  "new_PointLight c k loc =
     (if \<not> is_color c then Inl AssertionFailed
      else if \<not> k > 0 then Inl AssertionFailed
      else if \<not> is_homogeneous_point loc then Inl AssertionFailed
      else Inr \<lparr>color = c, intensity = k, location = loc\<rparr>)"

record Camera =
  c_location :: Vector4
  c_gaze :: Vector4
  c_up :: Vector4
  c_l :: real
  c_t :: real
  c_r :: real
  c_b :: real
  c_d :: real

definition new_Camera ::
  "Vector4 \<Rightarrow> Vector4 \<Rightarrow> Vector4 \<Rightarrow> real \<Rightarrow> real \<Rightarrow> real \<Rightarrow> real \<Rightarrow> real \<Rightarrow> error + Camera" where
  "new_Camera loc gaze up l t r b d =
     (if \<not> is_homogeneous_point loc then Inl AssertionFailed
      else if \<not> is_homogeneous_translation gaze then Inl AssertionFailed
      else if \<not> is_homogeneous_translation up then Inl AssertionFailed
      else if \<not> (l < 0 \<and> 0 < r) then Inl AssertionFailed
      else if \<not> (b < 0 \<and> 0 < t) then Inl AssertionFailed
      else if \<not> d > 0 then Inl AssertionFailed
      else Inr \<lparr>c_location = loc, c_gaze = gaze, c_up = up,
                c_l = l, c_t = t, c_r = r, c_b = b, c_d = d\<rparr>)"

subsection \<open>Images\<close>

text \<open>
  \<^verbatim>\<open>_pixels\<close> is a vector of rows: \<^verbatim>\<open>_pixels[y][x]\<close>. The constructor makes \<open>height\<close>
  rows of \<open>width\<close> pixels each, with \<open>height > 0\<close>, so \<^verbatim>\<open>_pixels[0]\<close> exists in every
  image the program can build.
\<close>

record Image =
  pixels :: "Color list list"

text \<open>
  The accessors \<^verbatim>\<open>Image::width\<close> and \<^verbatim>\<open>Image::height\<close> are \<open>image_width\<close> and
  \<open>image_height\<close>, leaving \<open>width\<close> and \<open>height\<close> to the parameters of \<^verbatim>\<open>render\<close>.
\<close>

definition new_Image :: "int \<Rightarrow> int \<Rightarrow> Color \<Rightarrow> error + Image" where
  "new_Image width height fill =
     (if \<not> width > 0 then Inl AssertionFailed
      else if \<not> height > 0 then Inl AssertionFailed
      else Inr \<lparr>pixels = replicate (nat height) (replicate (nat width) fill)\<rparr>)"

definition image_width :: "Image \<Rightarrow> int" where
  "image_width img = (case pixels img of [] \<Rightarrow> 0 | row # _ \<Rightarrow> int (length row))"

definition image_height :: "Image \<Rightarrow> int" where
  "image_height img = int (length (pixels img))"

definition is_x_coordinate :: "Image \<Rightarrow> int \<Rightarrow> bool" where
  "is_x_coordinate img x \<longleftrightarrow> x \<ge> 0 \<and> x < image_width img"

definition is_y_coordinate :: "Image \<Rightarrow> int \<Rightarrow> bool" where
  "is_y_coordinate img y \<longleftrightarrow> y \<ge> 0 \<and> y < image_height img"

definition is_coordinate :: "Image \<Rightarrow> int \<Rightarrow> int \<Rightarrow> bool" where
  "is_coordinate img x y \<longleftrightarrow> is_x_coordinate img x \<and> is_y_coordinate img y"

definition pixel :: "Image \<Rightarrow> int \<Rightarrow> int \<Rightarrow> error + Color" where
  "pixel img x y =
     (if \<not> is_coordinate img x y then Inl AssertionFailed
      else Inr (pixels img ! nat y ! nat x))"

definition set_pixel :: "int \<Rightarrow> int \<Rightarrow> Color \<Rightarrow> Image \<Rightarrow> error + Image" where
  "set_pixel x y c img =
     (if \<not> is_coordinate img x y then Inl AssertionFailed
      else if \<not> is_color c then Inl AssertionFailed
      else Inr (img\<lparr>pixels := (pixels img)[nat y := (pixels img ! nat y)[nat x := c]]\<rparr>))"

text \<open>
  The invariant the constructor establishes and \<^const>\<open>set_pixel\<close> keeps: at least one
  row, at least one column, all rows of the same length.
\<close>

definition wf_Image :: "Image \<Rightarrow> bool" where
  "wf_Image img \<longleftrightarrow>
     pixels img \<noteq> [] \<and> image_width img > 0 \<and> list_all (\<lambda>row. int (length row) = image_width img) (pixels img)"

subsection \<open>Counting loops\<close>

text \<open>
  \<^verbatim>\<open>for (i = lo; i < n; ++i) body\<close> and \<^verbatim>\<open>for (y = hi; y >= 0; --y) body\<close>, threading a
  state through the body and stopping at the first failed assertion.
\<close>

function for_up :: "int \<Rightarrow> int \<Rightarrow> (int \<Rightarrow> 's \<Rightarrow> error + 's) \<Rightarrow> 's \<Rightarrow> error + 's" where
  "for_up i n body s =
     (if i < n then
        (case body i s of Inl e \<Rightarrow> Inl e | Inr s' \<Rightarrow> for_up (i + 1) n body s')
      else Inr s)"
  by pat_completeness auto
termination
  by (relation "measure (\<lambda>(i, n, body, s). nat (n - i))") auto

function for_down :: "int \<Rightarrow> (int \<Rightarrow> 's \<Rightarrow> error + 's) \<Rightarrow> 's \<Rightarrow> error + 's" where
  "for_down y body s =
     (if y \<ge> 0 then
        (case body y s of Inl e \<Rightarrow> Inl e | Inr s' \<Rightarrow> for_down (y - 1) body s')
      else Inr s)"
  by pat_completeness auto
termination
  by (relation "measure (\<lambda>(y, body, s). nat (y + 1))") auto

declare for_up.simps [simp del] for_down.simps [simp del]

subsection \<open>The scene\<close>

record Scene =
  ambient_light :: Light
  background_color :: Color
  camera :: Camera
  perspective :: bool
  objects :: "SceneObject list"
  point_lights :: "PointLight list"

definition new_Scene :: "Light \<Rightarrow> Color \<Rightarrow> Camera \<Rightarrow> bool \<Rightarrow> error + Scene" where
  "new_Scene al bg cam persp =
     (if \<not> is_color bg then Inl AssertionFailed
      else Inr \<lparr>ambient_light = al, background_color = bg, camera = cam,
                perspective = persp, objects = [], point_lights = []\<rparr>)"

definition add_object :: "SceneObject \<Rightarrow> Scene \<Rightarrow> Scene" where
  "add_object obj sc = sc\<lparr>objects := objects sc @ [obj]\<rparr>"

definition add_point_light :: "PointLight \<Rightarrow> Scene \<Rightarrow> Scene" where
  "add_point_light pl sc = sc\<lparr>point_lights := point_lights sc @ [pl]\<rparr>"

text \<open>
  \<^verbatim>\<open>Scene::compute_viewing_ray\<close>. The camera basis \<^verbatim>\<open>vec_u\<close>, \<^verbatim>\<open>vec_v\<close>, \<^verbatim>\<open>vec_w\<close> is
  declared as three \<^verbatim>\<open>shared_ptr\<close> locals and never assigned: the pointers are null where
  the two branches dereference them. The function reads \<^verbatim>\<open>i\<close>, \<^verbatim>\<open>j\<close>, \<^verbatim>\<open>width\<close> and
  \<^verbatim>\<open>height\<close> of \<^verbatim>\<open>render\<close>, which are arguments here. The result is the pair of the two
  reference parameters (\<^verbatim>\<open>ray_origin\<close>, \<^verbatim>\<open>ray_direction\<close>).
\<close>

definition compute_viewing_ray ::
  "Scene \<Rightarrow> int \<Rightarrow> int \<Rightarrow> int \<Rightarrow> int \<Rightarrow> error + Vector4 \<times> Vector4" where
  "compute_viewing_ray sc width height i j =
     (let cam = camera sc;
          vec_u = (None :: Vector4 option);
          vec_v = (None :: Vector4 option);
          vec_w = (None :: Vector4 option);
          u = c_l cam + (c_r cam - c_l cam) * (real_of_int i + 0.5) / real_of_int width;
          v = c_b cam + (c_t cam - c_b cam) * (real_of_int j + 0.5) / real_of_int height
      in if perspective sc then
           (case deref vec_w of Inl e \<Rightarrow> Inl e | Inr w \<Rightarrow>
            case deref vec_u of Inl e \<Rightarrow> Inl e | Inr uu \<Rightarrow>
            case deref vec_v of Inl e \<Rightarrow> Inl e | Inr vv \<Rightarrow>
              (let ray_direction = vadd (vadd (vscale w (- c_d cam)) (vscale uu u)) (vscale vv v);
                   ray_origin = vscale (c_location cam) 1
               in Inr (ray_origin, ray_direction)))
         else
           (case deref vec_w of Inl e \<Rightarrow> Inl e | Inr w \<Rightarrow>
            case deref vec_u of Inl e \<Rightarrow> Inl e | Inr uu \<Rightarrow>
            case deref vec_v of Inl e \<Rightarrow> Inl e | Inr vv \<Rightarrow>
              (let ray_direction = vneg w;
                   ray_origin = vadd (vadd (c_location cam) (vscale uu u)) (vscale vv v)
               in Inr (ray_origin, ray_direction))))"

text \<open>
  \<^verbatim>\<open>Scene::render\<close>. First the statements of the innermost loop body that follow the call
  of \<^verbatim>\<open>compute_viewing_ray\<close>, as a function of the ray in the locals \<^verbatim>\<open>ray_origin\<close> and
  \<^verbatim>\<open>ray_direction\<close>: on a hit the body only reads the normal into a local (the call that
  would shade the pixel is commented out); on a miss it writes the background color. Then
  the loop over the objects of one pixel, and the two pixel loops.
\<close>

definition render_object ::
  "Scene \<Rightarrow> int \<Rightarrow> int \<Rightarrow> SceneObject \<Rightarrow> Vector4 \<Rightarrow> Vector4 \<Rightarrow> Image \<Rightarrow> error + Image" where
  "render_object sc i j scene_obj ray_origin ray_direction img =
     (case intersect scene_obj ray_origin ray_direction of
        Inl e \<Rightarrow> Inl e
      | Inr (Some hit_point) \<Rightarrow> Inr img
      | Inr None \<Rightarrow> set_pixel i j (background_color sc) img)"

fun render_objects ::
  "Scene \<Rightarrow> int \<Rightarrow> int \<Rightarrow> int \<Rightarrow> int \<Rightarrow> SceneObject list \<Rightarrow> Image \<Rightarrow> error + Image" where
  "render_objects sc width height i j [] img = Inr img"
| "render_objects sc width height i j (scene_obj # rest) img =
     (case compute_viewing_ray sc width height i j of
        Inl e \<Rightarrow> Inl e
      | Inr (ray_origin, ray_direction) \<Rightarrow>
          (case render_object sc i j scene_obj ray_origin ray_direction img of
             Inl e \<Rightarrow> Inl e
           | Inr img' \<Rightarrow> render_objects sc width height i j rest img'))"

definition render :: "Scene \<Rightarrow> int \<Rightarrow> int \<Rightarrow> error + Image" where
  "render sc width height =
     (if \<not> width > 0 then Inl AssertionFailed
      else if \<not> height > 0 then Inl AssertionFailed
      else
        case new_Image width height (background_color sc) of
          Inl e \<Rightarrow> Inl e
        | Inr img \<Rightarrow>
            for_up 0 height
              (\<lambda>j. for_up 0 width
                 (\<lambda>i. render_objects sc width height i j (objects sc)))
              img)"

subsection \<open>Shading\<close>

text \<open>
  \<^verbatim>\<open>Scene::evaluate_shading\<close>, the body of its loop over the point lights: the value
  assigned to \<^verbatim>\<open>current_point_light\<close>. The source names the object \<^verbatim>\<open>scene_obj\<close> here
  and \<^verbatim>\<open>obj\<close> in the parameter list. When the light sits at the intersection point the
  source divides by a zero magnitude and the value is a NaN: \<open>None\<close>. The parameter
  \<^verbatim>\<open>inter\<close> is \<open>inter_p\<close>.
\<close>

definition point_light_contribution ::
  "SceneObject \<Rightarrow> Vector4 \<Rightarrow> Vector4 \<Rightarrow> PointLight \<Rightarrow> Color option" where
  "point_light_contribution obj inter_p unit_normal point_light =
     (let light_displacement = vsub (location point_light) inter_p
      in if magnitude light_displacement = 0 then None
         else
           let unit_light_vector = vdiv light_displacement (magnitude light_displacement);
               max_light = max 0 (vdot unit_normal unit_light_vector);
               point_light_intensity = intensity point_light / magnitude light_displacement;
               current_point_light =
                 cscale (cscale (diffuse_color obj) max_light) point_light_intensity
           in Some current_point_light)"


text \<open>
  The contribution of one point light as the specification words it, for comparison:
  \<open>cos_theta * diffuse_color * point_light.color * attenuation\<close> with
  \<open>attenuation = point_light.intensity / distance\<^sup>2\<close>.
\<close>

definition spec_point_light_contribution ::
  "SceneObject \<Rightarrow> Vector4 \<Rightarrow> Vector4 \<Rightarrow> PointLight \<Rightarrow> Color" where
  "spec_point_light_contribution obj inter_p normal_unit point_light =
     (let to_light = vsub (location point_light) inter_p;
          distance = magnitude to_light;
          light_unit = vdiv to_light distance;
          cos_theta = max 0 (vdot normal_unit light_unit);
          attenuation = intensity point_light / distance\<^sup>2
      in cscale (cmul (cscale (diffuse_color obj) cos_theta) (color point_light)) attenuation)"

subsection \<open>Writing an image as PPM\<close>

text \<open>
  The output stream. \<^verbatim>\<open>std::ofstream\<close> belongs to the C++ library; the model keeps what
  \<^verbatim>\<open>write_ppm\<close> can observe of it. The destination is \<open>None\<close> when it cannot be opened
  for writing and \<open>Some n\<close> when it can and the device takes \<open>n\<close> more characters before
  a write fails. A stream that has failed ignores every later output, as the library's
  streams do.
\<close>

record ofstream =
  written :: string
  room :: nat
  failed :: bool

definition open_ofstream :: "nat option \<Rightarrow> ofstream" where
  "open_ofstream dest =
     (case dest of
        None \<Rightarrow> \<lparr>written = [], room = 0, failed = True\<rparr>
      | Some n \<Rightarrow> \<lparr>written = [], room = n, failed = False\<rparr>)"

definition put :: "string \<Rightarrow> ofstream \<Rightarrow> ofstream" where
  "put str f =
     (if failed f then f
      else if length str \<le> room f then
        f\<lparr>written := written f @ str, room := room f - length str\<rparr>
      else f\<lparr>written := written f @ take (room f) str, room := 0, failed := True\<rparr>)"

definition endl :: string where
  "endl = [CHR 0x0A]"

text \<open>The decimal numeral that \<^verbatim>\<open>operator<<\<close> prints for an \<^verbatim>\<open>int\<close>.\<close>

fun digits_of :: "nat \<Rightarrow> string" where
  "digits_of n =
     (if n < 10 then [''0123456789'' ! n]
      else digits_of (n div 10) @ [''0123456789'' ! (n mod 10)])"

declare digits_of.simps [simp del]

definition show_int :: "int \<Rightarrow> string" where
  "show_int k = (if k < 0 then CHR ''-'' # digits_of (nat (- k)) else digits_of (nat k))"

text \<open>
  \<^verbatim>\<open>Image::write_ppm\<close>: one pixel, one row, the whole file. The three \<^verbatim>\<open>discretize\<close>
  calls of a pixel are taken in the order of the output. The result is the returned
  flag, the image object after the call and the characters that reached the destination
  (\<open>None\<close> when it was not opened).
\<close>

definition write_pixel :: "(real \<Rightarrow> real) \<Rightarrow> Image \<Rightarrow> int \<Rightarrow> int \<Rightarrow> ofstream \<Rightarrow> error + ofstream" where
  "write_pixel fl img y x f =
     (case pixel img x y of
        Inl e \<Rightarrow> Inl e
      | Inr c \<Rightarrow>
          let f1 = (if x > 0 then put '' '' f else f)
          in case discretize fl (red c) of
               Inl e \<Rightarrow> Inl e
             | Inr r \<Rightarrow>
                 (case discretize fl (green c) of
                    Inl e \<Rightarrow> Inl e
                  | Inr g \<Rightarrow>
                      (case discretize fl (blue c) of
                         Inl e \<Rightarrow> Inl e
                       | Inr b \<Rightarrow>
                           Inr (put (show_int b) (put '' '' (put (show_int g)
                                  (put '' '' (put (show_int r) f1))))))))"

definition write_row :: "(real \<Rightarrow> real) \<Rightarrow> Image \<Rightarrow> int \<Rightarrow> ofstream \<Rightarrow> error + ofstream" where
  "write_row fl img y f =
     (case for_up 0 (image_width img) (write_pixel fl img y) f of
        Inl e \<Rightarrow> Inl e
      | Inr f' \<Rightarrow> Inr (put endl f'))"

definition write_ppm :: "(real \<Rightarrow> real) \<Rightarrow> nat option \<Rightarrow> Image \<Rightarrow> error + bool \<times> Image \<times> string option" where
  "write_ppm fl dest img =
     (let f = open_ofstream dest
      in if failed f then Inr (False, img, None)
         else
           let f1 = put endl (put ''255'' (put endl (put (show_int (image_height img))
                      (put '' '' (put (show_int (image_width img)) (put endl (put ''P3'' f)))))))
           in case for_down (image_height img - 1) (write_row fl img) f1 of
                Inl e \<Rightarrow> Inl e
              | Inr f2 \<Rightarrow>
                  let success = \<not> failed f2
                  in Inr (success, img, Some (written f2)))"

text \<open>
  The file as the specification describes it: a header line, a line with width and
  height, a line with 255, then one line per row from the top scanline (the last row in
  memory) to the bottom one, each with the space-separated triples of its pixels from
  left to right; a channel is \<open>round (intensity * 255)\<close> clamped to \<open>[0, 255]\<close>, the
  product being a \<^verbatim>\<open>double\<close> operation.
\<close>

definition spec_channel :: "(real \<Rightarrow> real) \<Rightarrow> real \<Rightarrow> int" where
  "spec_channel fl x = max 0 (min 255 (cround (fl (x * 255))))"

definition spec_triple :: "(real \<Rightarrow> real) \<Rightarrow> Color \<Rightarrow> string" where
  "spec_triple fl c =
     show_int (spec_channel fl (red c)) @ '' '' @ show_int (spec_channel fl (green c)) @ '' ''
       @ show_int (spec_channel fl (blue c))"

fun spaced :: "string list \<Rightarrow> string" where
  "spaced [] = []"
| "spaced [x] = x"
| "spaced (x # y # ys) = x @ '' '' @ spaced (y # ys)"

definition spec_row :: "(real \<Rightarrow> real) \<Rightarrow> Color list \<Rightarrow> string" where
  "spec_row fl row = spaced (map (spec_triple fl) row) @ endl"

definition spec_ppm :: "(real \<Rightarrow> real) \<Rightarrow> Image \<Rightarrow> string" where
  "spec_ppm fl img =
     ''P3'' @ endl @ show_int (image_width img) @ '' '' @ show_int (image_height img) @ endl
       @ ''255'' @ endl @ concat (map (spec_row fl) (rev (pixels img)))"

text \<open>Every pixel of the image is a valid color, as \<^const>\<open>discretize\<close> asserts of it.\<close>

definition colors_ok :: "Image \<Rightarrow> bool" where
  "colors_ok img \<longleftrightarrow> list_all (list_all is_color) (pixels img)"

text \<open>
  Two notions for the proofs about \<^const>\<open>write_ppm\<close>: the stream that was opened with
  room for \<open>n\<close> characters and has been sent the characters \<open>acc\<close>, and the characters
  that column \<open>m\<close> of a row adds to its line.
\<close>

definition stream_after :: "nat \<Rightarrow> string \<Rightarrow> ofstream" where
  "stream_after n acc =
     \<lparr>written = take n acc, room = n - length acc, failed = (n < length acc)\<rparr>"

definition cell :: "(real \<Rightarrow> real) \<Rightarrow> Color list \<Rightarrow> nat \<Rightarrow> string" where
  "cell fl row m = (if m > 0 then '' '' else []) @ spec_triple fl (row ! m)"

subsection \<open>A small scene and a small image\<close>

text \<open>
  A camera at the origin looking down the negative z axis through the window
  \<open>[-1, 1] \<times> [-1, 1]\<close> at distance 1, a blue unit sphere five units in front of it, and a
  scene with a red background around them; a 2 by 2 image.
\<close>

definition white :: Color where
  "white = \<lparr>red = 1, green = 1, blue = 1\<rparr>"

definition pure_red :: Color where
  "pure_red = \<lparr>red = 1, green = 0, blue = 0\<rparr>"

definition pure_blue :: Color where
  "pure_blue = \<lparr>red = 0, green = 0, blue = 1\<rparr>"

definition example_camera :: Camera where
  "example_camera =
     \<lparr>c_location = vector4_point 0 0 0, c_gaze = vector4_translation 0 0 (- 1),
      c_up = vector4_translation 0 1 0, c_l = - 1, c_t = 1, c_r = 1, c_b = - 1, c_d = 1\<rparr>"

definition example_sphere :: SceneObject where
  "example_sphere = SceneSphere pure_blue white (vector4_point 0 0 (- 5)) 1"

definition example_scene :: "bool \<Rightarrow> SceneObject list \<Rightarrow> PointLight list \<Rightarrow> Scene" where
  "example_scene persp objs lights =
     \<lparr>ambient_light = \<lparr>color = white, intensity = 1\<rparr>, background_color = pure_red,
      camera = example_camera, perspective = persp, objects = objs, point_lights = lights\<rparr>"

definition example_image :: Image where
  "example_image =
     \<lparr>pixels = [[pure_blue, \<lparr>red = 1, green = 1 / 2, blue = 0\<rparr>],
                [white, \<lparr>red = 0, green = 0, blue = 0\<rparr>]]\<rparr>"


section \<open>Properties\<close>

lemmas vector_defs =
  vdot_def vsub_def vadd_def vscale_def vneg_def vdiv_def vector4_point_def
  vector4_translation_def vector4_def is_homogeneous_point_def is_homogeneous_translation_def

lemmas example_defs =
  white_def pure_red_def pure_blue_def example_camera_def example_sphere_def

subsection \<open>Images\<close>

text \<open>
  Every image that the constructor builds satisfies \<^const>\<open>wf_Image\<close>, and
  \<^const>\<open>set_pixel\<close> keeps it so; the same holds of \<^const>\<open>colors_ok\<close> when the fill
  color is a valid color.
\<close>

lemma fill_width: "0 < h \<Longrightarrow> image_width \<lparr>pixels = replicate h (replicate w c)\<rparr> = int w"
  by (cases h) (simp_all add: image_width_def)

lemma fill_ok:
  assumes "0 < w" and "0 < h"
  shows "wf_Image \<lparr>pixels = replicate h (replicate w c)\<rparr>"
    and "is_color c \<Longrightarrow> colors_ok \<lparr>pixels = replicate h (replicate w c)\<rparr>"
proof -
  show "wf_Image \<lparr>pixels = replicate h (replicate w c)\<rparr>"
    using assms by (simp add: wf_Image_def fill_width list_all_length)
  show "colors_ok \<lparr>pixels = replicate h (replicate w c)\<rparr>" if "is_color c"
    using that by (simp add: colors_ok_def list_all_length)
qed

lemma new_Image_ok:
  assumes "new_Image width height fill = Inr img"
  shows "wf_Image img" and "is_color fill \<Longrightarrow> colors_ok img"
proof -
  have img: "img = \<lparr>pixels = replicate (nat height) (replicate (nat width) fill)\<rparr>"
    and pos: "0 < nat width" "0 < nat height"
    using assms by (auto simp add: new_Image_def split: if_splits)
  show "wf_Image img" unfolding img using pos by (rule fill_ok)
  show "colors_ok img" if "is_color fill" unfolding img using pos that by (rule fill_ok)
qed



lemma example_image_ok: "wf_Image example_image" "colors_ok example_image"
  by (simp_all add: wf_Image_def colors_ok_def example_image_def image_width_def is_color_def
      is_color_intensity_def white_def pure_blue_def)

subsection \<open>Web colors\<close>

lemma and_255_nat: "(n::nat) AND 0xFF = n mod 256"
proof -
  have "n AND mask 8 = n mod 2 ^ 8"
    by (simp only: take_bit_eq_mask [symmetric] take_bit_eq_mod)
  moreover have "(mask 8 :: nat) = 0xFF" by (simp add: mask_eq_exp_minus_1)
  ultimately show ?thesis by simp
qed

lemma drop_bit_16_byte: "hex \<le> (0xFFFFFF::nat) \<Longrightarrow> drop_bit 16 hex \<le> 255"
  by (simp add: drop_bit_eq_div)

lemma double_rounding_error:
  assumes "double_rounding fl" and "1 / 512 \<le> x" and "x \<le> 512"
  shows "\<bar>fl x - x\<bar> \<le> x / 9007199254740992"
proof -
  have "1 / 2 ^ 9 \<le> \<bar>x\<bar> \<and> \<bar>x\<bar> \<le> 2 ^ 9" using assms(2,3) by simp
  then have "\<bar>fl x - x\<bar> \<le> \<bar>x\<bar> / 2 ^ 53"
    using assms(1) unfolding double_rounding_def by blast
  then show ?thesis using assms(2) by simp
qed

lemma cround_near:
  assumes "\<bar>z - real k\<bar> < 1 / 2"
  shows "cround z = int k"
proof -
  have pos: "\<lfloor>z + 1 / 2\<rfloor> = int k"
    using assms by linarith
  show ?thesis
  proof (cases "0 \<le> z")
    case True
    then show ?thesis using pos by (simp add: cround_def)
  next
    case False
    then have "real k < 1" using assms by linarith
    then have k: "k = 0" by simp
    have "\<lfloor>- z + 1 / 2\<rfloor> = 0"
      using assms False k by linarith
    then show ?thesis using False k by (simp add: cround_def)
  qed
qed

lemma byte_roundtrip:
  assumes fl: "double_rounding fl" and k: "k \<le> (255::nat)"
  shows "is_color_intensity (fl (real k / 255))"
    and "cround (fl (fl (real k / 255) * 255)) = int k"
proof -
  define x where "x = real k / 255"
  define c where "c = fl x"
  define y where "y = c * 255"
  have both: "is_color_intensity c \<and> \<bar>fl y - real k\<bar> < 1 / 2"
  proof (cases "k = 0")
    case True
    then show ?thesis
      using fl by (simp add: double_rounding_def is_color_intensity_def x_def c_def y_def)
  next
    case False
    then have k1: "1 \<le> real k" by simp
    have k255: "real k \<le> 255" using k by simp
    have kx: "real k = x * 255" by (simp add: x_def)
    have x: "1 / 512 \<le> x" "x \<le> 512" "x \<le> 1" using k1 k255 unfolding kx by linarith+
    have "\<bar>c - x\<bar> \<le> x / 9007199254740992"
      unfolding c_def using double_rounding_error [OF fl x(1,2)] .
    then have ec: "\<bar>c - x\<bar> \<le> 1 / 9007199254740992" using x(3) by linarith
    have c1: "c \<le> 1"
    proof (cases "k = 255")
      case True
      then show ?thesis using fl by (simp add: double_rounding_def c_def x_def)
    next
      case False
      then have "k \<le> 254" using k by simp
      then have "real k \<le> 254" by simp
      then have "x \<le> 254 / 255" unfolding kx by linarith
      then show ?thesis using ec by linarith
    qed
    have c0: "0 \<le> c" using ec x(1) by linarith
    have ey: "\<bar>y - real k\<bar> \<le> 255 / 9007199254740992"
      unfolding y_def kx using ec by linarith
    have y: "1 / 512 \<le> y" "y \<le> 512" "y \<le> 256" using ey k1 k255 by linarith+
    have "\<bar>fl y - y\<bar> \<le> y / 9007199254740992"
      using double_rounding_error [OF fl y(1,2)] .
    then have "\<bar>fl y - y\<bar> \<le> 256 / 9007199254740992" using y(3) by linarith
    then have "\<bar>fl y - real k\<bar> < 1 / 2" using ey by linarith
    then show ?thesis using c0 c1 by (simp add: is_color_intensity_def)
  qed
  show "is_color_intensity (fl (real k / 255))" using both by (simp add: c_def x_def)
  show "cround (fl (fl (real k / 255) * 255)) = int k"
    using both cround_near [of "fl y" k] by (simp add: y_def c_def x_def)
qed

lemma discretize_byte:
  "double_rounding fl \<Longrightarrow> k \<le> (255::nat) \<Longrightarrow> discretize fl (fl (real k / 255)) = Inr (int k)"
  using byte_roundtrip [of fl k] by (simp add: discretize_def)

text \<open>
  C10. For every \<open>hex \<le> 0xFFFFFF\<close>, \<^const>\<open>web_color\<close> returns a color that satisfies
  \<^const>\<open>is_color\<close>, and rounding each component times 255 (which is what
  \<^const>\<open>discretize\<close> computes) gives back the three bytes \<open>hex >> 16\<close>,
  \<open>(hex >> 8) & 0xFF\<close> and \<open>hex & 0xFF\<close>. This holds for every rounding of the division
  and of the multiplication that satisfies \<^const>\<open>double_rounding\<close>.
\<close>

theorem web_color_roundtrip:
  assumes "double_rounding fl" and "hex \<le> 0xFFFFFF"
  shows "\<exists>c. web_color fl hex = Inr c \<and> is_color c
           \<and> cround (fl (red c * 255)) = int (drop_bit 16 hex)
           \<and> cround (fl (green c * 255)) = int (drop_bit 8 hex AND 0xFF)
           \<and> cround (fl (blue c * 255)) = int (hex AND 0xFF)
           \<and> discretize fl (red c) = Inr (int (drop_bit 16 hex))
           \<and> discretize fl (green c) = Inr (int (drop_bit 8 hex AND 0xFF))
           \<and> discretize fl (blue c) = Inr (int (hex AND 0xFF))"
proof -
  note fl = assms(1)
  have r: "drop_bit 16 hex \<le> 255" using assms(2) by (rule drop_bit_16_byte)
  have g: "drop_bit 8 hex AND 0xFF \<le> 255" by (simp add: and_255_nat)
  have b: "hex AND 0xFF \<le> 255" by (simp add: and_255_nat)
  show ?thesis
    using assms(2) byte_roundtrip [OF fl r] byte_roundtrip [OF fl g] byte_roundtrip [OF fl b]
      discretize_byte [OF fl r] discretize_byte [OF fl g] discretize_byte [OF fl b]
    by (simp add: web_color_def is_color_def Let_def)
qed

lemma exact_rounding: "double_rounding (\<lambda>x. x)"
  by (simp add: double_rounding_def)

theorem web_color_roundtrip_witness:
  "double_rounding (\<lambda>x. x) \<and> (0xFF8000::nat) \<le> 0xFFFFFF \<and>
   web_color (\<lambda>x. x) 0xFF8000 = Inr \<lparr>red = 1, green = 128 / 255, blue = 0\<rparr> \<and>
   discretize (\<lambda>x. x) 1 = Inr 255 \<and> discretize (\<lambda>x. x) (128 / 255) = Inr 128
   \<and> discretize (\<lambda>x. x) 0 = Inr 0"
  using web_color_roundtrip [OF exact_rounding, of "0xFF8000"]
  by (simp add: exact_rounding web_color_def is_color_def is_color_intensity_def Let_def drop_bit_eq_div
      and_255_nat discretize_def cround_def)

subsection \<open>Ray and sphere\<close>

text \<open>What every intersection that \<^const>\<open>intersect\<close> returns satisfies.\<close>

lemma intersect_Some:
  assumes "intersect s ray_origin ray_direction = Inr (Some hit)"
  shows "i_point hit = vadd ray_origin (vscale ray_direction (i_t hit))"
    and "i_normal hit = vscale (vsub (i_point hit) (center s)) 2"
    and "is_homogeneous_point (i_point hit)"
    and "is_homogeneous_translation (i_normal hit)"
    and "i_t hit \<ge> 0"
  using assms
  by (auto simp add: intersect_def new_Intersection_def Let_def split: if_splits sum.splits)

lemma magnitude_vscale: "k \<ge> 0 \<Longrightarrow> magnitude (vscale p k) = magnitude p * k"
proof -
  assume k: "k \<ge> 0"
  have "vdot (vscale p k) (vscale p k) = vdot p p * k\<^sup>2"
    by (simp add: vdot_def vscale_def power2_eq_square algebra_simps)
  then show ?thesis using k by (simp add: magnitude_def real_sqrt_mult)
qed

lemma normalized_vscale: "k > 0 \<Longrightarrow> normalized (vscale p k) = normalized p"
  by (simp add: normalized_def magnitude_vscale) (simp add: vdiv_def vscale_def)

text \<open>
  The parameter of a returned intersection is always the smaller root, and a negative
  smaller root always ends in a failed assertion.
\<close>

lemma vdot_self_nonneg: "0 \<le> vdot p p"
  by (simp add: vdot_def)

lemma intersect_smaller_root:
  assumes "intersect s ray_origin ray_direction = Inr (Some hit)"
    and a: "a = vdot ray_direction ray_direction"
    and b: "b = vdot ray_direction (vsub ray_origin (center s)) * 2"
    and c: "c = vdot (vsub ray_origin (center s)) (vsub ray_origin (center s))
                  - radius s * radius s"
  shows "i_t hit = (- b - sqrt (b * b - 4 * a * c)) / (2 * a)"
    and "i_t hit \<le> (- b + sqrt (b * b - 4 * a * c)) / (2 * a)"
proof -
  let ?t0 = "(- b + sqrt (b * b - 4 * a * c)) / (2 * a)"
  let ?t1 = "(- b - sqrt (b * b - 4 * a * c)) / (2 * a)"
  have d: "0 \<le> b * b - 4 * a * c" and a0: "a \<noteq> 0"
    and t: "i_t hit = (if ?t0 < ?t1 then ?t0 else ?t1)"
    using assms(1)
    by (auto simp add: intersect_def new_Intersection_def Let_def a b c
        split: if_splits sum.splits)
  have pos: "0 < a" using a0 vdot_self_nonneg [of ray_direction] a by simp
  have le: "?t1 \<le> ?t0" using pos d by (simp add: divide_le_cancel)
  show "i_t hit = ?t1" using t le by simp
  then show "i_t hit \<le> ?t0" using le by simp
qed

lemma intersect_None:
  assumes "intersect s ray_origin ray_direction = Inr None"
  shows "(vdot ray_direction (vsub ray_origin (center s)) * 2)
           * (vdot ray_direction (vsub ray_origin (center s)) * 2)
         - 4 * vdot ray_direction ray_direction
             * (vdot (vsub ray_origin (center s)) (vsub ray_origin (center s))
                  - radius s * radius s) < 0"
  using assms
  by (auto simp add: intersect_def Let_def split: if_splits sum.splits)

lemma intersect_Inl:
  "intersect s ray_origin ray_direction = Inl e \<Longrightarrow> e = AssertionFailed"
  by (auto simp add: intersect_def new_Intersection_def Let_def split: if_splits sum.splits)

lemma intersect_negative_root:
  assumes a: "a = vdot ray_direction ray_direction"
    and b: "b = vdot ray_direction (vsub ray_origin (center s)) * 2"
    and c: "c = vdot (vsub ray_origin (center s)) (vsub ray_origin (center s))
                  - radius s * radius s"
    and d: "0 \<le> b * b - 4 * a * c"
    and neg: "(- b - sqrt (b * b - 4 * a * c)) / (2 * a) < 0"
  shows "intersect s ray_origin ray_direction = Inl AssertionFailed"
proof (cases "intersect s ray_origin ray_direction")
  case (Inl e)
  then show ?thesis using intersect_Inl [OF Inl] by simp
next
  case (Inr res)
  show ?thesis
  proof (cases res)
    case None
    then have "b * b - 4 * a * c < 0"
      using intersect_None [of s ray_origin ray_direction] Inr unfolding a b c by simp
    then show ?thesis using d by simp
  next
    case (Some hit)
    then have h: "intersect s ray_origin ray_direction = Inr (Some hit)" using Inr by simp
    have "0 \<le> i_t hit" using intersect_Some(5) [OF h] by simp
    moreover have "i_t hit = (- b - sqrt (b * b - 4 * a * c)) / (2 * a)"
      using intersect_smaller_root(1) [OF h a b c] .
    ultimately show ?thesis using neg by simp
  qed
qed

lemma example_hit:
  "intersect example_sphere (vector4_point 0 0 0) (vector4_translation 0 0 (- 1))
     = Inr (Some \<lparr>i_point = vector4_point 0 0 (- 4), i_normal = vector4_translation 0 0 2,
                  i_t = 4\<rparr>)"
  by (simp add: intersect_def new_Intersection_def example_defs vector_defs Let_def)

text \<open>
  C2. The claim: \<^const>\<open>intersect\<close> returns no hit when both roots are negative, and
  otherwise the smallest non-negative root. The code takes the smaller root whatever its
  sign (lemmas \<open>intersect_smaller_root\<close> and \<open>intersect_negative_root\<close>). For the ray
  from the origin along \<open>-z\<close>: with the unit sphere at \<open>z = 5\<close> (behind the ray) the roots
  are \<open>-4\<close> and \<open>-6\<close>, with the unit sphere around the origin they are \<open>1\<close> and \<open>-1\<close>; in
  both cases the negative root \<open>t1\<close> goes to the \<^verbatim>\<open>Intersection\<close> constructor, whose
  assertion \<open>t \<ge> 0\<close> fails.
\<close>

theorem intersect_negative_root_aborts:
  "intersect (SceneSphere white white (vector4_point 0 0 5) 1)
     (vector4_point 0 0 0) (vector4_translation 0 0 (- 1)) = Inl AssertionFailed
   \<and> intersect (SceneSphere white white (vector4_point 0 0 0) 1)
     (vector4_point 0 0 0) (vector4_translation 0 0 (- 1)) = Inl AssertionFailed"
  by (simp add: intersect_def new_Intersection_def vector_defs Let_def)

text \<open>
  C5, as the code has it. For every intersection that \<^const>\<open>intersect\<close> returns, the hit
  point is \<open>origin + t \<cdot> direction\<close>; the normal is \<open>2 \<cdot> (hit_point - center)\<close>, the gradient
  of the sphere equation as it is, without a normalization step: normalizing it gives
  \<open>hit_point - center\<close> normalized; and the normal is a homogeneous direction (fourth
  component 0), not a point.
\<close>

theorem intersect_hit_geometry:
  assumes "intersect s ray_origin ray_direction = Inr (Some hit)"
  shows "i_point hit = vadd ray_origin (vscale ray_direction (i_t hit))
       \<and> i_normal hit = vscale (vsub (i_point hit) (center s)) 2
       \<and> normalized (i_normal hit) = normalized (vsub (i_point hit) (center s))
       \<and> is_homogeneous_translation (i_normal hit)
       \<and> \<not> is_homogeneous_point (i_normal hit)"
  using intersect_Some [OF assms] normalized_vscale [of 2 "vsub (i_point hit) (center s)"]
  by (simp add: is_homogeneous_point_def is_homogeneous_translation_def)

theorem intersect_hit_geometry_witness:
  "intersect example_sphere (vector4_point 0 0 0) (vector4_translation 0 0 (- 1))
     = Inr (Some \<lparr>i_point = vector4_point 0 0 (- 4), i_normal = vector4_translation 0 0 2,
                  i_t = 4\<rparr>)
   \<and> vector4_point 0 0 (- 4) = vadd (vector4_point 0 0 0) (vscale (vector4_translation 0 0 (- 1)) 4)
   \<and> vector4_translation 0 0 2
        = vscale (vsub (vector4_point 0 0 (- 4)) (center example_sphere)) 2
   \<and> is_homogeneous_translation (vector4_translation 0 0 2)"
  using intersect_hit_geometry [OF example_hit] example_hit
  unfolding Intersection.simps by blast

text \<open>
  C5, as the claim states it, fails: for the example sphere (radius 1) and the ray from
  the origin along \<open>-z\<close> the returned normal is \<open>(0, 0, 2, 0)\<close>, of length 2, while the
  normalized \<open>hit_point - center\<close> is \<open>(0, 0, 1, 0)\<close>.
\<close>

theorem intersect_normal_not_normalized:
  "intersect example_sphere (vector4_point 0 0 0) (vector4_translation 0 0 (- 1))
     = Inr (Some \<lparr>i_point = vector4_point 0 0 (- 4), i_normal = vector4_translation 0 0 2,
                  i_t = 4\<rparr>)
   \<and> normalized (vsub (vector4_point 0 0 (- 4)) (center example_sphere))
        = vector4_translation 0 0 1
   \<and> vector4_translation 0 0 2 \<noteq> vector4_translation 0 0 1"
  by (simp add: intersect_def new_Intersection_def example_defs vector_defs Let_def
      normalized_def magnitude_def)

subsection \<open>Viewing rays\<close>

text \<open>
  Whatever the scene and the pixel, \<^const>\<open>compute_viewing_ray\<close> ends in the dereference of
  the null pointer \<^verbatim>\<open>vec_w\<close>.
\<close>

lemma compute_viewing_ray_null:
  "compute_viewing_ray sc width height i j = Inl NullDereference"
  by (simp add: compute_viewing_ray_def deref_def Let_def)

text \<open>
  C6. The claim: for the pixel \<open>(i, j)\<close> the viewing ray has, under perspective
  projection, the camera location as origin and \<open>- d \<cdot> w_axis + u \<cdot> u_axis + v \<cdot> v_axis\<close> as
  direction, and under orthographic projection the origin
  \<open>location + u \<cdot> u_axis + v \<cdot> v_axis\<close> and the direction \<open>- w_axis\<close>. The code writes these
  expressions over three basis pointers that it never assigns: for the example camera
  and the pixel \<open>(1, 0)\<close> of a 2 by 2 image it yields no ray under either projection.
\<close>

theorem compute_viewing_ray_null_basis:
  "compute_viewing_ray (example_scene True [] []) 2 2 1 0 = Inl NullDereference
   \<and> compute_viewing_ray (example_scene False [] []) 2 2 1 0 = Inl NullDereference"
  by (simp add: compute_viewing_ray_def deref_def Let_def example_scene_def)

subsection \<open>Rendering\<close>

lemma for_up_id: "for_up i n (\<lambda>k s. Inr s) s = Inr s"
proof (induction i n "\<lambda>(k::int) (s::'a). (Inr s :: error + 'a)" s rule: for_up.induct)
  case (1 i n s)
  then show ?case by (subst for_up.simps) simp
qed

lemma for_up_ext_id:
  assumes "\<And>k s. body k s = Inr s"
  shows "for_up i n body s = Inr s"
proof -
  have "body = (\<lambda>k s. Inr s)" using assms by (intro ext)
  then show ?thesis by (simp add: for_up_id)
qed

lemma render_no_objects:
  assumes "width > 0" "height > 0" "objects sc = []"
  shows "render sc width height
           = Inr \<lparr>pixels = replicate (nat height) (replicate (nat width) (background_color sc))\<rparr>"
proof -
  have inner: "for_up 0 width (\<lambda>i. render_objects sc width height i j []) s = Inr s" for j s
    by (rule for_up_ext_id) simp
  have "for_up 0 height (\<lambda>j. for_up 0 width (\<lambda>i. render_objects sc width height i j [])) s
          = Inr s" for s
    by (rule for_up_ext_id) (rule inner)
  with assms show ?thesis by (simp add: render_def new_Image_def)
qed

text \<open>
  C7. For a scene without primitives and positive \<open>width\<close> and \<open>height\<close>, whatever the
  camera and the projection mode, \<^const>\<open>render\<close> returns an image of that size and every
  pixel of it is the background color of the scene.
\<close>

theorem render_empty_scene:
  assumes "width > 0" and "height > 0" and "objects sc = []"
  shows "\<exists>img. render sc width height = Inr img
           \<and> image_width img = width \<and> image_height img = height
           \<and> (\<forall>x y. 0 \<le> x \<and> x < width \<and> 0 \<le> y \<and> y < height
                 \<longrightarrow> pixel img x y = Inr (background_color sc))"
proof -
  let ?img = "\<lparr>pixels = replicate (nat height) (replicate (nat width) (background_color sc))\<rparr>"
  have r: "render sc width height = Inr ?img" using assms by (rule render_no_objects)
  have w: "image_width ?img = width"
    using assms by (cases "nat height") (simp_all add: image_width_def)
  have h: "image_height ?img = height" using assms by (simp add: image_height_def)
  have "pixel ?img x y = Inr (background_color sc)"
    if "0 \<le> x \<and> x < width \<and> 0 \<le> y \<and> y < height" for x y
    using that w h
    by (simp add: pixel_def is_coordinate_def is_x_coordinate_def is_y_coordinate_def)
  with r w h show ?thesis by blast
qed

theorem render_empty_scene_witness:
  "(0::int) < 2 \<and> objects (example_scene False [] []) = []
   \<and> render (example_scene False [] []) 2 2
       = Inr \<lparr>pixels = [[pure_red, pure_red], [pure_red, pure_red]]\<rparr>
   \<and> pixel \<lparr>pixels = [[pure_red, pure_red], [pure_red, pure_red]]\<rparr> 1 0 = Inr pure_red"
  using render_empty_scene [of 2 2 "example_scene False [] []"]
  by (simp add: example_scene_def render_def new_Image_def for_up.simps numeral_2_eq_2
      pixel_def is_coordinate_def is_x_coordinate_def is_y_coordinate_def image_width_def
      image_height_def)

text \<open>
  The loop body never changes an image that holds the background color in every pixel:
  a miss writes the background color and a hit writes nothing. So, whatever the scene, an
  image that \<^const>\<open>render\<close> returns holds the background color in every pixel.
\<close>

lemma for_up_invariant_aux:
  assumes step: "\<And>k s s'. P s \<Longrightarrow> body k s = Inr s' \<Longrightarrow> P s'"
  shows "m = nat (n - i) \<Longrightarrow> P s \<Longrightarrow> for_up i n body s = Inr s' \<Longrightarrow> P s'"
proof (induction m arbitrary: i s)
  case 0
  then show ?case by (subst (asm) for_up.simps) simp
next
  case (Suc m)
  then have lt: "i < n" by simp
  then obtain s1 where b: "body i s = Inr s1" and r: "for_up (i + 1) n body s1 = Inr s'"
    using Suc.prems(3) by (subst (asm) for_up.simps) (auto split: sum.splits)
  have "P s1" using step [OF Suc.prems(2) b] .
  moreover have "m = nat (n - (i + 1))" using Suc.prems(1) by simp
  ultimately show ?case using Suc.IH r by blast
qed

lemma for_up_invariant:
  assumes "\<And>k s s'. P s \<Longrightarrow> body k s = Inr s' \<Longrightarrow> P s'"
    and "P s" and "for_up i n body s = Inr s'"
  shows "P s'"
  using for_up_invariant_aux [where P = P and body = body, OF assms(1) refl assms(2) assms(3)] .

lemma set_pixel_fill:
  assumes "set_pixel x y c \<lparr>pixels = replicate h (replicate w c)\<rparr> = Inr img'"
  shows "img' = \<lparr>pixels = replicate h (replicate w c)\<rparr>"
proof -
  let ?img = "\<lparr>pixels = replicate h (replicate w c)\<rparr>"
  have co: "is_coordinate ?img x y"
    and eq: "img' = ?img\<lparr>pixels := (pixels ?img)[nat y := (pixels ?img ! nat y)[nat x := c]]\<rparr>"
    using assms by (auto simp add: set_pixel_def split: if_splits)
  have y: "nat y < h"
    using co by (auto simp add: is_coordinate_def is_y_coordinate_def image_height_def)
  then have row: "replicate h (replicate w c) ! nat y = replicate w c" by simp
  have "(replicate w c)[nat x := c] = replicate w c"
    by (cases "nat x < w") (simp_all add: list_update_same_conv list_update_beyond)
  then show ?thesis using eq y row by (simp add: list_update_same_conv)
qed

lemma render_object_fill:
  assumes "img = \<lparr>pixels = replicate h (replicate w (background_color sc))\<rparr>"
    and "render_object sc i j scene_obj ray_origin ray_direction img = Inr img'"
  shows "img' = img"
  using assms
  by (auto simp add: render_object_def split: sum.splits option.splits dest: set_pixel_fill)

lemma render_objects_fill:
  assumes "img = \<lparr>pixels = replicate h (replicate w (background_color sc))\<rparr>"
  shows "render_objects sc width height i j objs img = Inr img' \<Longrightarrow> img' = img"
proof (induction objs)
  case Nil
  then show ?case by simp
next
  case (Cons obj objs)
  from Cons.prems obtain ray_origin ray_direction img1
    where "render_object sc i j obj ray_origin ray_direction img = Inr img1"
      and rest: "render_objects sc width height i j objs img1 = Inr img'"
    by (auto split: prod.splits sum.splits)
  then have "img1 = img" using render_object_fill [OF assms] by blast
  then show ?case using rest Cons.IH by simp
qed

lemma render_only_background:
  assumes "render sc width height = Inr img"
  shows "img = \<lparr>pixels = replicate (nat height) (replicate (nat width) (background_color sc))\<rparr>"
proof -
  let ?img0 = "\<lparr>pixels = replicate (nat height) (replicate (nat width) (background_color sc))\<rparr>"
  have loop: "for_up 0 height (\<lambda>j. for_up 0 width
                 (\<lambda>i. render_objects sc width height i j (objects sc))) ?img0 = Inr img"
    using assms by (simp add: render_def new_Image_def split: if_splits)
  have objs: "s' = ?img0"
    if "s = ?img0" and "render_objects sc width height k j (objects sc) s = Inr s'"
    for k j s s'
    using render_objects_fill [OF that(1) that(2)] that(1) by simp
  have inner: "s' = ?img0"
    if "s = ?img0"
      and "for_up 0 width (\<lambda>i. render_objects sc width height i j (objects sc)) s = Inr s'"
    for j s s'
    by (rule for_up_invariant [where P = "\<lambda>s. s = ?img0", OF objs that])
  show ?thesis
    by (rule for_up_invariant [where P = "\<lambda>s. s = ?img0", OF inner refl loop])
qed

lemma render_image_ok:
  assumes "render sc width height = Inr img"
  shows "wf_Image img" and "is_color (background_color sc) \<Longrightarrow> colors_ok img"
proof -
  have img: "img = \<lparr>pixels = replicate (nat height)
                        (replicate (nat width) (background_color sc))\<rparr>"
    using assms by (rule render_only_background)
  have pos: "0 < nat width" "0 < nat height"
    using assms by (auto simp add: render_def split: if_splits)
  show "wf_Image img" unfolding img using pos by (rule fill_ok)
  show "colors_ok img" if "is_color (background_color sc)"
    unfolding img using pos that by (rule fill_ok)
qed

text \<open>
  With at least one primitive in the scene, \<^const>\<open>render\<close> calls
  \<^const>\<open>compute_viewing_ray\<close> for the first pixel and ends there.
\<close>

lemma render_with_objects:
  assumes "width > 0" and "height > 0" and "objects sc \<noteq> []"
  shows "render sc width height = Inl NullDereference"
proof -
  obtain obj rest where o: "objects sc = obj # rest" using assms(3) by (cases "objects sc") auto
  have "render_objects sc width height i j (objects sc) s = Inl NullDereference" for i j s
    by (simp add: o compute_viewing_ray_null)
  then have "for_up 0 width (\<lambda>i. render_objects sc width height i j (objects sc)) s
               = Inl NullDereference" for j s
    using assms(1) by (subst for_up.simps) simp
  then have "for_up 0 height (\<lambda>j. for_up 0 width
               (\<lambda>i. render_objects sc width height i j (objects sc))) s = Inl NullDereference" for s
    using assms(2) by (subst for_up.simps) simp
  then show ?thesis using assms(1,2) by (simp add: render_def new_Image_def)
qed

text \<open>
  C1. The claim: a pixel is the background color if and only if no primitive is hit by
  its viewing ray, and otherwise the shading of the nearest hit. The code: the example
  scene with the blue sphere in front of the camera, rendered as one pixel. The viewing
  ray that this pixel has by the specification starts at the origin and runs along \<open>-z\<close>;
  the sphere is hit on it at \<open>t = 4\<close>, and the loop body, given this ray, leaves the pixel
  at the red background. The call of \<^const>\<open>render\<close> itself ends in the null basis of
  \<^const>\<open>compute_viewing_ray\<close> before any pixel is written. Either way the hit is not
  shaded.
\<close>

theorem render_hit_leaves_background:
  "intersect example_sphere (vector4_point 0 0 0) (vector4_translation 0 0 (- 1))
     = Inr (Some \<lparr>i_point = vector4_point 0 0 (- 4), i_normal = vector4_translation 0 0 2,
                  i_t = 4\<rparr>)
   \<and> render_object (example_scene True [example_sphere] []) 0 0 example_sphere
       (vector4_point 0 0 0) (vector4_translation 0 0 (- 1)) \<lparr>pixels = [[pure_red]]\<rparr>
     = Inr \<lparr>pixels = [[pure_red]]\<rparr>
   \<and> render (example_scene True [example_sphere] []) 1 1 = Inl NullDereference"
proof -
  let ?sc = "example_scene True [example_sphere] []"
  have o: "objects ?sc = [example_sphere]" by (simp add: example_scene_def)
  have "render ?sc 1 1 = Inl NullDereference"
    by (simp add: render_def new_Image_def for_up.simps o compute_viewing_ray_null)
  moreover have "render_object ?sc 0 0 example_sphere
       (vector4_point 0 0 0) (vector4_translation 0 0 (- 1)) \<lparr>pixels = [[pure_red]]\<rparr>
     = Inr \<lparr>pixels = [[pure_red]]\<rparr>"
    by (simp add: render_object_def example_hit)
  ultimately show ?thesis using example_hit by simp
qed

subsection \<open>Shading\<close>

text \<open>
  C4. The claim: the contribution of a point light is
  \<open>max (0, n \<cdot> l) \<cdot> diffuse_color \<cdot> light.color \<cdot> (intensity / distance\<^sup>2)\<close>. The code
  divides the intensity by the distance, not by its square, and has no factor for the
  color of the light. For a white surface at the origin facing \<open>+z\<close>: a white light of
  intensity 1 at distance 2 contributes \<open>1/2\<close> per channel where the claim gives \<open>1/4\<close>,
  and a red light of intensity 1 at distance 1 contributes white where the claim gives
  red.
\<close>

theorem point_light_contribution_not_inverse_square:
  "point_light_contribution (SceneSphere white white (vector4_point 0 0 (- 1)) 1)
     (vector4_point 0 0 0) (vector4_translation 0 0 1)
     \<lparr>color = white, intensity = 1, location = vector4_point 0 0 2\<rparr>
     = Some \<lparr>red = 1 / 2, green = 1 / 2, blue = 1 / 2\<rparr>
   \<and> spec_point_light_contribution (SceneSphere white white (vector4_point 0 0 (- 1)) 1)
     (vector4_point 0 0 0) (vector4_translation 0 0 1)
     \<lparr>color = white, intensity = 1, location = vector4_point 0 0 2\<rparr>
     = \<lparr>red = 1 / 4, green = 1 / 4, blue = 1 / 4\<rparr>
   \<and> point_light_contribution (SceneSphere white white (vector4_point 0 0 (- 1)) 1)
     (vector4_point 0 0 0) (vector4_translation 0 0 1)
     \<lparr>color = pure_red, intensity = 1, location = vector4_point 0 0 1\<rparr>
     = Some \<lparr>red = 1, green = 1, blue = 1\<rparr>
   \<and> spec_point_light_contribution (SceneSphere white white (vector4_point 0 0 (- 1)) 1)
     (vector4_point 0 0 0) (vector4_translation 0 0 1)
     \<lparr>color = pure_red, intensity = 1, location = vector4_point 0 0 1\<rparr>
     = \<lparr>red = 1, green = 0, blue = 0\<rparr>"
  by (simp add: point_light_contribution_def spec_point_light_contribution_def vector_defs
      magnitude_def Let_def cscale_def cmul_def white_def pure_red_def)





subsection \<open>The PPM file\<close>

lemma put_stream_after: "put str (stream_after n acc) = stream_after n (acc @ str)"
  by (auto simp add: put_def stream_after_def)

lemma open_stream_after: "open_ofstream (Some n) = stream_after n []"
  by (simp add: open_ofstream_def stream_after_def)

lemma discretize_spec: "is_color_intensity x \<Longrightarrow> discretize fl x = Inr (spec_channel fl x)"
  by (auto simp add: discretize_def spec_channel_def Let_def)

lemma wf_row_length:
  "wf_Image img \<Longrightarrow> k < length (pixels img) \<Longrightarrow> int (length (pixels img ! k)) = image_width img"
  by (simp add: wf_Image_def list_all_length)

lemma colors_ok_nth:
  "colors_ok img \<Longrightarrow> k < length (pixels img) \<Longrightarrow> m < length (pixels img ! k) \<Longrightarrow> is_color (pixels img ! k ! m)"
  by (simp add: colors_ok_def list_all_length)

lemma write_pixel_ok:
  assumes "wf_Image img" "colors_ok img" "0 \<le> y" "y < image_height img" "0 \<le> x" "x < image_width img"
  shows "write_pixel fl img y x (stream_after n acc)
           = Inr (stream_after n (acc @ cell fl (pixels img ! nat y) (nat x)))"
proof -
  have ky: "nat y < length (pixels img)" using assms by (simp add: image_height_def)
  have kx: "nat x < length (pixels img ! nat y)"
    using wf_row_length [OF assms(1) ky] assms by simp
  have c: "is_color (pixels img ! nat y ! nat x)" using colors_ok_nth [OF assms(2) ky kx] .
  have p: "pixel img x y = Inr (pixels img ! nat y ! nat x)"
    using assms by (simp add: pixel_def is_coordinate_def is_x_coordinate_def is_y_coordinate_def)
  show ?thesis
    using c assms(5)
    by (simp add: write_pixel_def p is_color_def discretize_spec put_stream_after cell_def spec_triple_def Let_def)
qed

lemma write_cols:
  assumes "wf_Image img" "colors_ok img" "0 \<le> y" "y < image_height img"
  shows "0 \<le> x \<Longrightarrow> x \<le> image_width img \<Longrightarrow> k = nat (image_width img - x) \<Longrightarrow>
         for_up x (image_width img) (write_pixel fl img y) (stream_after n acc)
           = Inr (stream_after n (acc @ concat (map (cell fl (pixels img ! nat y)) [nat x..<nat (image_width img)])))"
proof (induction k arbitrary: x acc)
  case 0
  then show ?case by (subst for_up.simps) simp
next
  case (Suc k)
  then have lt: "x < image_width img" by simp
  have k: "k = nat (image_width img - (x + 1))" using Suc.prems by simp
  have up: "[nat x..<nat (image_width img)] = nat x # [nat (x + 1)..<nat (image_width img)]"
    using lt Suc.prems(1) by (simp add: upt_conv_Cons nat_add_distrib)
  show ?case
    apply (subst for_up.simps)
    using lt Suc.prems(1) write_pixel_ok [OF assms Suc.prems(1) lt, of fl n acc]
      Suc.IH [of "x + 1" "acc @ cell fl (pixels img ! nat y) (nat x)", OF _ _ k]
    by (simp add: up)
qed

lemma spaced_snoc: "spaced (xs @ [x]) = (if xs = [] then x else spaced xs @ '' '' @ x)"
  by (induction xs rule: spaced.induct) auto

lemma cells_spaced: "concat (map (cell fl row) [0..<length row]) = spaced (map (spec_triple fl) row)"
proof (induction row rule: rev_induct)
  case Nil
  then show ?case by simp
next
  case (snoc c row)
  have "map (cell fl (row @ [c])) [0..<length row] = map (cell fl row) [0..<length row]"
    by (simp add: cell_def nth_append)
  then have init: "concat (map (cell fl (row @ [c])) [0..<length row]) = spaced (map (spec_triple fl) row)"
    using snoc by (simp only:)
  have last: "cell fl (row @ [c]) (length row) = (if row = [] then [] else '' '') @ spec_triple fl c"
    by (simp add: cell_def)
  have "concat (map (cell fl (row @ [c])) [0..<length (row @ [c])])
          = concat (map (cell fl (row @ [c])) [0..<length row]) @ cell fl (row @ [c]) (length row)"
    by simp
  also have "\<dots> = spaced (map (spec_triple fl) row) @ (if row = [] then [] else '' '') @ spec_triple fl c"
    by (simp only: init last)
  also have "\<dots> = spaced (map (spec_triple fl) (row @ [c]))"
    by (simp add: spaced_snoc)
  finally show ?case .
qed

lemma write_row_ok:
  assumes "wf_Image img" "colors_ok img" "0 \<le> y" "y < image_height img"
  shows "write_row fl img y (stream_after n acc) = Inr (stream_after n (acc @ spec_row fl (pixels img ! nat y)))"
proof -
  have ky: "nat y < length (pixels img)" using assms by (simp add: image_height_def)
  have len: "nat (image_width img) = length (pixels img ! nat y)"
    using wf_row_length [OF assms(1) ky] by simp
  have w: "0 \<le> image_width img" using assms(1) by (simp add: wf_Image_def)
  show ?thesis
    using write_cols [OF assms order_refl w refl, of fl n acc]
    by (simp add: write_row_def len cells_spaced spec_row_def put_stream_after)
qed

lemma write_rows:
  assumes "wf_Image img" "colors_ok img"
  shows "- 1 \<le> y \<Longrightarrow> y < image_height img \<Longrightarrow> k = nat (y + 1) \<Longrightarrow>
         for_down y (write_row fl img) (stream_after n acc)
           = Inr (stream_after n (acc @ concat (map (spec_row fl) (rev (take (nat (y + 1)) (pixels img))))))"
proof (induction k arbitrary: y acc)
  case 0
  then show ?case by (subst for_down.simps) simp
next
  case (Suc k)
  then have y0: "0 \<le> y" by simp
  have k: "k = nat (y - 1 + 1)" using Suc.prems by simp
  have ky: "nat y < length (pixels img)" using Suc.prems y0 by (simp add: image_height_def)
  have tk: "take (nat (y + 1)) (pixels img) = take (nat y) (pixels img) @ [pixels img ! nat y]"
    using ky y0 by (simp add: nat_add_distrib take_Suc_conv_app_nth)
  show ?case
    apply (subst for_down.simps)
    using y0 write_row_ok [OF assms y0 Suc.prems(2), of fl n acc]
      Suc.IH [of "y - 1" "acc @ spec_row fl (pixels img ! nat y)", OF _ _ k] Suc.prems(2)
    by (simp add: tk)
qed

lemma write_ppm_opened:
  assumes "wf_Image img" "colors_ok img"
  shows "write_ppm fl (Some n) img
           = Inr (length (spec_ppm fl img) \<le> n, img, Some (take n (spec_ppm fl img)))"
proof -
  let ?hdr = "''P3'' @ endl @ show_int (image_width img) @ '' '' @ show_int (image_height img)
                @ endl @ ''255'' @ endl"
  have h: "- 1 \<le> image_height img - 1" "image_height img - 1 < image_height img"
    by (simp_all add: image_height_def)
  have tk: "take (nat (image_height img - 1 + 1)) (pixels img) = pixels img"
    by (simp add: image_height_def)
  have hdr: "put endl (put ''255'' (put endl (put (show_int (image_height img))
               (put '' '' (put (show_int (image_width img)) (put endl (put ''P3''
                 (open_ofstream (Some n)))))))))
             = stream_after n ?hdr"
    by (simp add: open_stream_after put_stream_after)
  have rows: "for_down (image_height img - 1) (write_row fl img) (stream_after n ?hdr)
                = Inr (stream_after n (spec_ppm fl img))"
    using write_rows [OF assms h refl, of fl n ?hdr] by (simp only: tk) (simp add: spec_ppm_def)
  have opened: "\<not> failed (open_ofstream (Some n))"
    by (simp add: open_ofstream_def)
  show ?thesis
    unfolding write_ppm_def Let_def
    by (simp only: opened hdr rows if_False sum.case) (simp add: stream_after_def not_less)
qed

lemma write_ppm_closed: "write_ppm fl None img = Inr (False, img, None)"
  by (simp add: write_ppm_def open_ofstream_def)

text \<open>
  An image with a pixel that is not a valid color makes \<^const>\<open>write_ppm\<close> abort in
  \<^const>\<open>discretize\<close>, whatever the state of the stream.
\<close>

lemma for_up_abort:
  assumes bad: "\<And>s. \<exists>e. body i0 s = Inl e"
  shows "i \<le> i0 \<Longrightarrow> i0 < n \<Longrightarrow> m = nat (i0 - i) \<Longrightarrow> \<exists>e. for_up i n body s = Inl e"
proof (induction m arbitrary: i s)
  case 0
  then have "i = i0" by simp
  then show ?case using 0 bad [of s] by (subst for_up.simps) auto
next
  case (Suc m)
  then have lt: "i < i0" "i < n" by simp_all
  have m: "m = nat (i0 - (i + 1))" using Suc.prems by simp
  show ?case
  proof (cases "body i s")
    case (Inl e)
    then show ?thesis using lt by (subst for_up.simps) simp
  next
    case (Inr s')
    then show ?thesis
      using lt Suc.IH [of "i + 1" s', OF _ Suc.prems(2) m] by (subst for_up.simps) simp
  qed
qed

lemma for_down_abort:
  assumes bad: "\<And>s. \<exists>e. body y0 s = Inl e"
  shows "0 \<le> y0 \<Longrightarrow> y0 \<le> y \<Longrightarrow> m = nat (y - y0) \<Longrightarrow> \<exists>e. for_down y body s = Inl e"
proof (induction m arbitrary: y s)
  case 0
  then have "y = y0" by simp
  then show ?case using 0 bad [of s] by (subst for_down.simps) auto
next
  case (Suc m)
  then have lt: "y0 < y" "0 \<le> y" by simp_all
  have m: "m = nat (y - 1 - y0)" using Suc.prems by simp
  show ?case
  proof (cases "body y s")
    case (Inl e)
    then show ?thesis using lt by (subst for_down.simps) simp
  next
    case (Inr s')
    then show ?thesis
      using lt Suc.IH [of "y - 1" s', OF Suc.prems(1) _ m] by (subst for_down.simps) simp
  qed
qed

lemma discretize_bad: "\<not> is_color_intensity x \<Longrightarrow> discretize fl x = Inl AssertionFailed"
  by (simp add: discretize_def)

lemma discretize_cases:
  "discretize fl x = Inl AssertionFailed \<and> \<not> is_color_intensity x
   \<or> (\<exists>v. discretize fl x = Inr v) \<and> is_color_intensity x"
  by (simp add: discretize_def Let_def)

lemma write_pixel_bad:
  assumes "is_coordinate img x y" and "\<not> is_color (pixels img ! nat y ! nat x)"
  shows "write_pixel fl img y x f = Inl AssertionFailed"
proof -
  let ?c = "pixels img ! nat y ! nat x"
  have p: "pixel img x y = Inr ?c" using assms(1) by (simp add: pixel_def)
  consider "discretize fl (red ?c) = Inl AssertionFailed"
    | r where "discretize fl (red ?c) = Inr r" "discretize fl (green ?c) = Inl AssertionFailed"
    | r g where "discretize fl (red ?c) = Inr r" "discretize fl (green ?c) = Inr g"
        "discretize fl (blue ?c) = Inl AssertionFailed"
    using assms(2) discretize_cases [of fl "red ?c"] discretize_cases [of fl "green ?c"]
      discretize_cases [of fl "blue ?c"]
    by (auto simp add: is_color_def)
  then show ?thesis
    by cases (simp_all add: write_pixel_def p Let_def)
qed

lemma write_ppm_bad_color:
  assumes wf: "wf_Image img" and bad: "\<not> colors_ok img"
  shows "\<exists>e. write_ppm fl (Some n) img = Inl e"
proof -
  obtain k m where k: "k < length (pixels img)" and m: "m < length (pixels img ! k)"
    and c: "\<not> is_color (pixels img ! k ! m)"
    using bad by (auto simp add: colors_ok_def list_all_length)
  have w: "int (length (pixels img ! k)) = image_width img"
    using wf k by (simp add: wf_Image_def list_all_length)
  have co: "is_coordinate img (int m) (int k)"
    using k m w
    by (simp add: is_coordinate_def is_x_coordinate_def is_y_coordinate_def image_height_def)
  have px: "\<exists>e. write_pixel fl img (int k) (int m) f = Inl e" for f
    using write_pixel_bad [OF co] c by simp
  have cols: "\<exists>e. for_up 0 (image_width img) (write_pixel fl img (int k)) f = Inl e" for f
    using for_up_abort [of "write_pixel fl img (int k)" "int m" 0 "image_width img", OF px _ _ refl]
      m w
    by simp
  have row: "\<exists>e. write_row fl img (int k) f = Inl e" for f
    using cols [of f] by (auto simp add: write_row_def)
  have rows: "\<exists>e. for_down (image_height img - 1) (write_row fl img) f = Inl e" for f
    using for_down_abort [of "write_row fl img" "int k" "image_height img - 1", OF row _ _ refl] k
    by (simp add: image_height_def)
  show ?thesis
    using rows [of "put endl (put ''255'' (put endl (put (show_int (image_height img))
                      (put '' '' (put (show_int (image_width img)) (put endl (put ''P3''
                        (open_ofstream (Some n)))))))))"]
    by (auto simp add: write_ppm_def open_ofstream_def Let_def)
qed

text \<open>
  C8. For an image with the constructor's shape, a call of \<^const>\<open>write_ppm\<close> that
  returns true has written exactly the file of the specification: the header line, the
  line with width and height, the line with 255, and one line per row from the last row
  in memory down to row 0, each with the space-separated triples of
  \<open>round (intensity \<cdot> 255)\<close> clamped to \<open>[0, 255]\<close>; and the call does return true with
  that file whenever the colors are valid and the destination opens and takes that many
  characters.
\<close>

theorem write_ppm_format:
  assumes "wf_Image img"
  shows "(colors_ok img \<and> length (spec_ppm fl img) \<le> n
            \<longrightarrow> write_ppm fl (Some n) img = Inr (True, img, Some (spec_ppm fl img)))
       \<and> (\<forall>img' out. write_ppm fl dest img = Inr (True, img', out)
            \<longrightarrow> out = Some (spec_ppm fl img))"
proof (intro conjI allI impI)
  assume "colors_ok img \<and> length (spec_ppm fl img) \<le> n"
  then show "write_ppm fl (Some n) img = Inr (True, img, Some (spec_ppm fl img))"
    by (simp add: write_ppm_opened [OF assms])
next
  fix img' out
  assume ok: "write_ppm fl dest img = Inr (True, img', out)"
  show "out = Some (spec_ppm fl img)"
  proof (cases dest)
    case None
    then show ?thesis using ok by (simp add: write_ppm_closed)
  next
    case (Some m)
    show ?thesis
    proof (cases "colors_ok img")
      case True
      then show ?thesis using ok Some by (auto simp add: write_ppm_opened [OF assms])
    next
      case False
      then show ?thesis using ok Some write_ppm_bad_color [OF assms, of fl m] by auto
    qed
  qed
qed

lemma show_int_small:
  "show_int 0 = ''0''" "show_int 2 = ''2''" "show_int 128 = ''128''" "show_int 255 = ''255''"
  by (simp_all add: show_int_def digits_of.simps)

lemma spec_channel_small:
  "spec_channel (\<lambda>x. x) 0 = 0" "spec_channel (\<lambda>x. x) 1 = 255"
    "spec_channel (\<lambda>x. x) (1 / 2) = 128"
  by (simp_all add: spec_channel_def cround_def)

lemma example_image_ppm:
  "spec_ppm (\<lambda>x. x) example_image =
     ''P3'' @ endl @ ''2 2'' @ endl @ ''255'' @ endl @ ''255 255 255 0 0 0'' @ endl
       @ ''0 0 255 255 128 0'' @ endl"
  by (simp add: spec_ppm_def spec_row_def spec_triple_def spec_channel_small show_int_small
      example_image_def image_width_def image_height_def white_def pure_blue_def)

theorem write_ppm_format_witness:
  "wf_Image example_image \<and> colors_ok example_image
   \<and> length (spec_ppm (\<lambda>x. x) example_image) \<le> 100
   \<and> write_ppm (\<lambda>x. x) (Some 100) example_image
       = Inr (True, example_image,
              Some (''P3'' @ endl @ ''2 2'' @ endl @ ''255'' @ endl @ ''255 255 255 0 0 0'' @ endl
                      @ ''0 0 255 255 128 0'' @ endl))"
proof -
  have len: "length (spec_ppm (\<lambda>x. x) example_image) \<le> 100"
    by (simp add: example_image_ppm endl_def)
  have "write_ppm (\<lambda>x. x) (Some 100) example_image
          = Inr (True, example_image, Some (spec_ppm (\<lambda>x. x) example_image))"
    using write_ppm_format [OF example_image_ok(1), of "\<lambda>x. x" 100 None] len
      example_image_ok(2)
    by blast
  then show ?thesis
    using len example_image_ok unfolding example_image_ppm by blast
qed

text \<open>
  C9. When the destination cannot be opened, \<^const>\<open>write_ppm\<close> returns false: it
  neither aborts nor writes. For an image with the constructor's shape, whenever the call
  returns, the image after it is the image before it, and the flag is true exactly when
  the destination opened and took the whole file without a write error; and the call
  does return when the colors of the image are valid.
\<close>

theorem write_ppm_status:
  "write_ppm fl None img = Inr (False, img, None)
   \<and> (wf_Image img \<longrightarrow>
        (\<forall>flag img' out. write_ppm fl dest img = Inr (flag, img', out) \<longrightarrow>
           img' = img \<and> (flag \<longleftrightarrow> (\<exists>n. dest = Some n \<and> length (spec_ppm fl img) \<le> n)))
        \<and> (colors_ok img \<longrightarrow> (\<exists>flag out. write_ppm fl dest img = Inr (flag, img, out))))"
proof (intro conjI impI allI)
  show "write_ppm fl None img = Inr (False, img, None)" by (rule write_ppm_closed)
next
  fix flag img' out
  assume wf: "wf_Image img" and ret: "write_ppm fl dest img = Inr (flag, img', out)"
  have "img' = img \<and> (flag \<longleftrightarrow> (\<exists>n. dest = Some n \<and> length (spec_ppm fl img) \<le> n))"
  proof (cases dest)
    case None
    then show ?thesis using ret by (simp add: write_ppm_closed)
  next
    case (Some m)
    show ?thesis
    proof (cases "colors_ok img")
      case True
      then show ?thesis using ret Some by (auto simp add: write_ppm_opened [OF wf])
    next
      case False
      then show ?thesis using ret Some write_ppm_bad_color [OF wf, of fl m] by auto
    qed
  qed
  then show "img' = img"
    and "flag \<longleftrightarrow> (\<exists>n. dest = Some n \<and> length (spec_ppm fl img) \<le> n)"
    by simp_all
next
  assume wf: "wf_Image img" and ok: "colors_ok img"
  show "\<exists>flag out. write_ppm fl dest img = Inr (flag, img, out)"
  proof (cases dest)
    case None
    then show ?thesis using write_ppm_closed [of fl img] by auto
  next
    case (Some m)
    then show ?thesis using wf ok by (simp add: write_ppm_opened)
  qed
qed

theorem write_ppm_status_witness:
  "wf_Image example_image \<and> colors_ok example_image
   \<and> write_ppm (\<lambda>x. x) None example_image = Inr (False, example_image, None)
   \<and> (\<exists>out. write_ppm (\<lambda>x. x) (Some 100) example_image = Inr (True, example_image, out))
   \<and> (\<exists>out. write_ppm (\<lambda>x. x) (Some 5) example_image = Inr (False, example_image, out))"
proof -
  have len: "length (spec_ppm (\<lambda>x. x) example_image) \<le> 100"
    "\<not> length (spec_ppm (\<lambda>x. x) example_image) \<le> 5"
    by (simp_all add: example_image_ppm endl_def)
  show ?thesis 
    using write_ppm_status [of "\<lambda>x. x" example_image "Some 100"]
      write_ppm_status [of "\<lambda>x. x" example_image "Some 5"] example_image_ok
    by (auto simp add: len)
qed

end
